theory Spec2Isabelle
  imports Main "HOL-Library.Sublist" "HOL-Library.Char_ord" "HOL-Library.List_Lexorder"
    "HOL-Library.AList" "HOL-Library.Multiset"
begin

section \<open>The Scaleway dynamic inventory\<close>

text \<open>
  A shallow embedding of the latest revision of the inventory program (the one that filters
  server names with \<^verbatim>\<open>allowedServerName\<close>): \<^verbatim>\<open>main\<close>, \<^verbatim>\<open>initScwApi\<close>,
  \<^verbatim>\<open>getServers\<close>, \<^verbatim>\<open>getScWServerByName\<close> and \<^verbatim>\<open>getServer\<close>.

  Go strings are byte sequences and so are HOL strings; \<open>length\<close> is Go's \<^verbatim>\<open>len\<close>.
  The program's calls into the Go standard library and into the Scaleway client are
  modelled by what those packages document: regular expressions by their language,
  \<^verbatim>\<open>strconv.Atoi\<close> by decimal parsing, \<^verbatim>\<open>strings.Contains\<close> by contiguous sublists,
  the directory by the answers it gives.
\<close>

subsection \<open>Regular expressions (package regexp)\<close>

text \<open>
  The syntax tree of a pattern, with the operator names of \<^verbatim>\<open>regexp/syntax\<close>. A character
  class is a list of inclusive byte ranges. Every character of the program's pattern is
  ASCII, and an ASCII byte never occurs inside a multi-byte UTF-8 sequence, so matching
  bytes and matching runes accept the same strings.
\<close>

datatype regex =
    OpNoMatch
  | OpEmptyMatch
  | OpLiteral char
  | OpCharClass "(char \<times> char) list"
  | OpAlternate regex regex
  | OpConcat regex regex
  | OpStar regex
  | OpPlus regex

text \<open>
  The items between \<^verbatim>\<open>[\<close> and \<^verbatim>\<open>]\<close>: \<^verbatim>\<open>lo-hi\<close> is a range, any other character
  stands for itself (so a \<^verbatim>\<open>[\<close> inside a class is a member of the class). A range whose
  bounds are out of order is a syntax error.
\<close>

fun classRanges :: "string \<Rightarrow> (char \<times> char) list option" where
  "classRanges [] = Some []"
| "classRanges (lo # m # hi # rest) =
     (if m = CHR ''-'' then
        (if hi < lo then None
         else map_option ((#) (lo, hi)) (classRanges rest))
      else map_option ((#) (lo, lo)) (classRanges (m # hi # rest)))"
| "classRanges (c # rest) = map_option ((#) (c, c)) (classRanges rest)"

text \<open>
  The parser reads the pattern left to right. It keeps the alternatives already closed by
  \<^verbatim>\<open>|\<close>, the factors of the alternative being read, and the raw text of a class that is
  open. \<^verbatim>\<open>+\<close> applies to the last factor only. The parser covers literals, classes,
  \<^verbatim>\<open>|\<close> and \<^verbatim>\<open>+\<close>, which is all the program's pattern uses, and answers \<open>None\<close> on
  every other metacharacter and on a syntax error.
\<close>

record parser =
  alts :: "regex list"
  cur :: "regex list"
  cls :: "string option"

definition concatOf :: "regex list \<Rightarrow> regex" where
  "concatOf rs = (if rs = [] then OpEmptyMatch else foldl OpConcat (hd rs) (tl rs))"

definition alternateOf :: "regex list \<Rightarrow> regex" where
  "alternateOf rs = (if rs = [] then OpNoMatch else foldl OpAlternate (hd rs) (tl rs))"

definition unsupported :: "char \<Rightarrow> bool" where
  "unsupported c = (c = CHR 0x5C \<or> c \<in> set ''.*?(){}^$]'')"

fun parseStep :: "parser option \<Rightarrow> char \<Rightarrow> parser option" where
  "parseStep None c = None"
| "parseStep (Some p) c =
     (case cls p of
        Some raw \<Rightarrow>
          (if c = CHR '']'' \<and> raw \<noteq> [] then
             (case classRanges raw of
                None \<Rightarrow> None
              | Some rs \<Rightarrow> Some (p\<lparr>cur := cur p @ [OpCharClass rs], cls := None\<rparr>))
           else if c = CHR 0x5C \<or> (c = CHR ''^'' \<and> raw = [])
                   \<or> (c = CHR '':'' \<and> raw \<noteq> [] \<and> last raw = CHR ''['') then None
           else Some (p\<lparr>cls := Some (raw @ [c])\<rparr>))
      | None \<Rightarrow>
          (if c = CHR ''['' then Some (p\<lparr>cls := Some []\<rparr>)
           else if c = CHR ''|'' then Some (p\<lparr>alts := alts p @ [concatOf (cur p)], cur := []\<rparr>)
           else if c = CHR ''+'' then
             (if cur p = [] then None
              else case last (cur p) of
                     OpPlus r \<Rightarrow> None
                   | r \<Rightarrow> Some (p\<lparr>cur := butlast (cur p) @ [OpPlus r]\<rparr>))
           else if unsupported c then None
           else Some (p\<lparr>cur := cur p @ [OpLiteral c]\<rparr>)))"

definition Compile :: "string \<Rightarrow> regex option" where
  "Compile expr =
     (case foldl parseStep (Some \<lparr>alts = [], cur = [], cls = None\<rparr>) expr of
        None \<Rightarrow> None
      | Some p \<Rightarrow>
          (if cls p \<noteq> None then None
           else Some (alternateOf (alts p @ [concatOf (cur p)]))))"

text \<open>
  \<^verbatim>\<open>regexp.MustCompile\<close> panics where \<^verbatim>\<open>Compile\<close> fails. The program calls it once, on
  its own pattern, which compiles (lemma \<open>allowedServerName_ast\<close>), so the other branch is
  never taken.
\<close>

definition MustCompile :: "string \<Rightarrow> regex" where
  "MustCompile expr = (case Compile expr of Some r \<Rightarrow> r | None \<Rightarrow> OpNoMatch)"

definition inClass :: "(char \<times> char) list \<Rightarrow> char \<Rightarrow> bool" where
  "inClass rs c = list_ex (\<lambda>(lo, hi). lo \<le> c \<and> c \<le> hi) rs"

text \<open>Matching a whole string, by derivatives.\<close>

fun nullable :: "regex \<Rightarrow> bool" where
  "nullable OpNoMatch = False"
| "nullable OpEmptyMatch = True"
| "nullable (OpLiteral c) = False"
| "nullable (OpCharClass rs) = False"
| "nullable (OpAlternate a b) = (nullable a \<or> nullable b)"
| "nullable (OpConcat a b) = (nullable a \<and> nullable b)"
| "nullable (OpStar a) = True"
| "nullable (OpPlus a) = nullable a"

fun deriv :: "char \<Rightarrow> regex \<Rightarrow> regex" where
  "deriv c OpNoMatch = OpNoMatch"
| "deriv c OpEmptyMatch = OpNoMatch"
| "deriv c (OpLiteral d) = (if c = d then OpEmptyMatch else OpNoMatch)"
| "deriv c (OpCharClass rs) = (if inClass rs c then OpEmptyMatch else OpNoMatch)"
| "deriv c (OpAlternate a b) = OpAlternate (deriv c a) (deriv c b)"
| "deriv c (OpConcat a b) =
     (if nullable a then OpAlternate (OpConcat (deriv c a) b) (deriv c b)
      else OpConcat (deriv c a) b)"
| "deriv c (OpStar a) = OpConcat (deriv c a) (OpStar a)"
| "deriv c (OpPlus a) = OpConcat (deriv c a) (OpStar a)"

fun matches :: "regex \<Rightarrow> string \<Rightarrow> bool" where
  "matches r [] = nullable r"
| "matches r (c # s) = matches (deriv c r) s"

text \<open>
  \<^verbatim>\<open>(*Regexp).MatchString\<close> reports whether the string contains any match of the pattern:
  the pattern is not anchored.
\<close>

definition MatchString :: "regex \<Rightarrow> string \<Rightarrow> bool" where
  "MatchString re s = list_ex (matches re) (sublists s)"




subsection \<open>Packages strings and strconv\<close>

definition Contains :: "string \<Rightarrow> string \<Rightarrow> bool" where
  "Contains s substr = sublist substr s"

definition isDigit :: "char \<Rightarrow> bool" where
  "isDigit c = (CHR ''0'' \<le> c \<and> c \<le> CHR ''9'')"

text \<open>
  \<^verbatim>\<open>strconv.Atoi\<close>: an optional sign, then at least one decimal digit and nothing else;
  the value must fit the 64-bit \<^verbatim>\<open>int\<close>. \<open>None\<close> stands for a non-nil error.
\<close>

definition Atoi :: "string \<Rightarrow> int option" where
  "Atoi s =
     (if s = [] then None
      else
        let neg = (hd s = CHR ''-'');
            ds = (if hd s = CHR ''-'' \<or> hd s = CHR ''+'' then tl s else s)
        in if ds = [] \<or> \<not> list_all isDigit ds then None
           else
             let n = foldl (\<lambda>a c. 10 * a + (int (of_char c) - 48)) 0 ds;
                 v = (if neg then - n else n)
             in if v < - (2 ^ 63) \<or> 2 ^ 63 - 1 < v then None else Some v)"

subsection \<open>The directory and the process\<close>

text \<open>The fields of \<^verbatim>\<open>types.ScalewayServer\<close> that the program reads.\<close>

record ScalewayIPAddress =
  IP :: string

record ScalewayServer =
  Name :: string
  Tags :: "string list"
  PublicAddress :: ScalewayIPAddress
  PrivateIP :: string

text \<open>
  The directory handle \<^verbatim>\<open>scwApi\<close>, by its answers: \<open>Inl\<close> carries the text of a non-nil
  error. \<open>GetServers\<close> is the answer to \<^verbatim>\<open>GetServers(true, 0)\<close>, the only call the
  program makes of it.
\<close>

record ScalewayAPI =
  GetServers :: "string + ScalewayServer list"
  GetServerID :: "string \<Rightarrow> string + string"
  GetServer :: "string \<Rightarrow> string + ScalewayServer"

text \<open>
  What a run leaves behind: the lines printed on standard output, the lines logged on
  standard error, and the directory calls made, each in order.
\<close>

datatype api_call = CallGetServers | CallGetServerID string | CallGetServer string

record world =
  stdout :: "string list"
  stderr :: "string list"
  calls :: "api_call list"

text \<open>
  A function that does not return: \<^verbatim>\<open>os.Exit\<close> with its code, or a run-time panic.
\<close>

datatype abort = Exit int | Panic

text \<open>
  A Go map is a list of key/value pairs with distinct keys. Reading a missing key gives the
  zero value of the element type, which is empty for a string and for a slice.
\<close>

type_synonym 'v gomap = "(string \<times> 'v) list"

definition mapIndex :: "'a list gomap \<Rightarrow> string \<Rightarrow> 'a list" where
  "mapIndex m k = (case map_of m k of None \<Rightarrow> [] | Some v \<Rightarrow> v)"

text \<open>
  What the program takes from its run-time environment: the environment variables,
  \<^verbatim>\<open>strings.TrimSpace\<close>, the constructor of the directory handle, the order in which a
  \<^verbatim>\<open>range\<close> over a map visits the keys (Go leaves it unspecified), and the JSON
  encoding of one string.
\<close>

record runtime =
  Getenv :: "string \<Rightarrow> string"
  TrimSpace :: "string \<Rightarrow> string"
  NewScalewayAPI :: "string \<Rightarrow> string \<Rightarrow> string + ScalewayAPI"
  MapKeys :: "string list \<Rightarrow> string list"
  EncodeString :: "string \<Rightarrow> string"

subsection \<open>Package encoding/json\<close>

definition joinWith :: "string \<Rightarrow> string list \<Rightarrow> string" where
  "joinWith sep xs = (if xs = [] then [] else foldl (\<lambda>acc x. acc @ sep @ x) (hd xs) (tl xs))"

text \<open>The pairs of a map in the order the run time visits them.\<close>

definition mapRange :: "runtime \<Rightarrow> 'v gomap \<Rightarrow> 'v gomap" where
  "mapRange rt m =
     List.map_filter (\<lambda>k. map_option (Pair k) (map_of m k)) (MapKeys rt (map fst m))"

text \<open>
  The encoder collects the pairs of a map, sorts them by key (bytewise) and writes them
  between braces. Neither of the two map types of the program can make \<^verbatim>\<open>json.Marshal\<close>
  fail, so the error is always nil (\<open>Inr\<close>).
\<close>

definition encodeMap :: "runtime \<Rightarrow> ('v \<Rightarrow> string) \<Rightarrow> 'v gomap \<Rightarrow> string" where
  "encodeMap rt enc m =
     ''{'' @ joinWith '','' (map (\<lambda>(k, v). EncodeString rt k @ '':'' @ enc v)
                               (sort_key fst (mapRange rt m))) @ ''}''"

definition encodeSlice :: "runtime \<Rightarrow> string list \<Rightarrow> string" where
  "encodeSlice rt xs = ''['' @ joinWith '','' (map (EncodeString rt) xs) @ '']''"

definition Marshal_groups :: "runtime \<Rightarrow> string list gomap \<Rightarrow> string + string" where
  "Marshal_groups rt m = Inr (encodeMap rt (encodeSlice rt) m)"

definition Marshal_vars :: "runtime \<Rightarrow> string gomap \<Rightarrow> string + string" where
  "Marshal_vars rt m = Inr (encodeMap rt (EncodeString rt) m)"

subsection \<open>Globals\<close>

definition allowedServerName_expr :: string where
  "allowedServerName_expr = ''proxy[0-9]|master[[0-9]|worker+[0-9]''"

definition allowedServerName :: regex where
  "allowedServerName = MustCompile allowedServerName_expr"

definition MSG_PREFIX :: string where
  "MSG_PREFIX = ''scw-inv:''"

text \<open>\<^verbatim>\<open>l.Printf\<close> writes one message to standard error.\<close>

definition logPrintf :: "string \<Rightarrow> world \<Rightarrow> world" where
  "logPrintf msg w = w\<lparr>stderr := stderr w @ [msg]\<rparr>"

definition apiCall :: "api_call \<Rightarrow> world \<Rightarrow> world" where
  "apiCall c w = w\<lparr>calls := calls w @ [c]\<rparr>"

subsection \<open>initScwApi\<close>

definition initScwApi :: "runtime \<Rightarrow> world \<Rightarrow> (abort + ScalewayAPI) \<times> world" where
  "initScwApi rt w =
     (let scwOrga = TrimSpace rt (Getenv rt ''SCALEWAY_ORGANIZATION'')
      in if TrimSpace rt scwOrga = [] then
           (Inl (Exit 1),
            logPrintf (MSG_PREFIX @ '' required SCALEWAY_ORGANIZATION env var is not set'') w)
         else
           let scwToken = TrimSpace rt (Getenv rt ''SCALEWAY_TOKEN'')
           in if TrimSpace rt scwToken = [] then
                (Inl (Exit 1),
                 logPrintf (MSG_PREFIX @ '' required SCALEWAY_TOKEN env var is not set'') w)
              else
                (case NewScalewayAPI rt scwOrga scwToken of
                   Inl err \<Rightarrow>
                     (Inl (Exit 1),
                      logPrintf (MSG_PREFIX @ '' failed to create scaleway API instance: '' @ err) w)
                 | Inr api \<Rightarrow> (Inr api, w)))"

subsection \<open>getServers\<close>

text \<open>The inner loop, over the tags of one server.\<close>

fun getServers_tags :: "string \<Rightarrow> string list \<Rightarrow> string list gomap \<Rightarrow> string list gomap" where
  "getServers_tags name [] result = result"
| "getServers_tags name (tag # tags) result =
     (let result1 = (if map_of result tag = None then AList.update tag [] result else result)
      in getServers_tags name tags (AList.update tag (mapIndex result1 tag @ [name]) result1))"

text \<open>The outer loop, over the servers.\<close>

fun getServers_loop :: "ScalewayServer list \<Rightarrow> string list gomap \<Rightarrow> string list gomap" where
  "getServers_loop [] result = result"
| "getServers_loop (server # servers) result =
     (if \<not> MatchString allowedServerName (Name server) then getServers_loop servers result
      else getServers_loop servers (getServers_tags (Name server) (Tags server) result))"

definition getServers :: "ScalewayAPI \<Rightarrow> world \<Rightarrow> (abort + string list gomap) \<times> world" where
  "getServers scwApi w =
     (let w1 = apiCall CallGetServers w
      in case GetServers scwApi of
           Inl err \<Rightarrow> (Inl (Exit 1), logPrintf (MSG_PREFIX @ '' failed to get servers: '' @ err) w1)
         | Inr servers \<Rightarrow> (Inr (getServers_loop servers []), w1))"

subsection \<open>getScWServerByName\<close>

definition getScWServerByName ::
  "ScalewayAPI \<Rightarrow> string \<Rightarrow> world \<Rightarrow> (abort + ScalewayServer) \<times> world" where
  "getScWServerByName scwApi serverName w =
     (let w1 = apiCall (CallGetServerID serverName) w
      in case GetServerID scwApi serverName of
           Inl err \<Rightarrow>
             (Inl (Exit 1),
              logPrintf (MSG_PREFIX @ '' failed to get server id with name: '' @ err) w1)
         | Inr serverId \<Rightarrow>
             (let w2 = apiCall (CallGetServer serverId) w1
              in case GetServer scwApi serverId of
                   Inl err \<Rightarrow>
                     (Inl (Exit 1),
                      logPrintf (MSG_PREFIX @ '' failed to get server with id: '' @ err) w2)
                 | Inr server \<Rightarrow> (Inr server, w2)))"

subsection \<open>getServer\<close>

text \<open>The block that builds \<^verbatim>\<open>ansible_host\<close>.\<close>

definition getServer_ansible_host :: "ScalewayServer \<Rightarrow> string gomap \<Rightarrow> string gomap" where
  "getServer_ansible_host server result =
     (if IP (PublicAddress server) \<noteq> [] then
        AList.update ''ansible_host'' (IP (PublicAddress server)) result
      else AList.update ''ansible_host'' (PrivateIP server) result)"

text \<open>The block that builds \<^verbatim>\<open>vpn_ip\<close>. \<^verbatim>\<open>digitPos\<close> is a Go \<^verbatim>\<open>int\<close> and may be \<open>-1\<close>.\<close>

definition getServer_vpn_ip :: "ScalewayServer \<Rightarrow> string gomap \<Rightarrow> string gomap" where
  "getServer_vpn_ip server result =
     (let digitPos = int (length (Name server)) - 1
      in if digitPos > 1 then
           (let lastDigit = drop (nat digitPos) (Name server)
            in case Atoi lastDigit of
                 None \<Rightarrow> result
               | Some n \<Rightarrow>
                   (if Contains (Name server) ''proxy'' then
                      AList.update ''vpn_ip'' (''192.168.66.1'' @ lastDigit) result
                    else if Contains (Name server) ''master'' then
                      AList.update ''vpn_ip'' (''192.168.66.2'' @ lastDigit) result
                    else if Contains (Name server) ''worker'' then
                      AList.update ''vpn_ip'' (''192.168.66.3'' @ lastDigit) result
                    else result))
         else result)"

definition getServer :: "ScalewayAPI \<Rightarrow> string \<Rightarrow> world \<Rightarrow> (abort + string gomap) \<times> world" where
  "getServer scwApi serverName w =
     (if \<not> MatchString allowedServerName serverName then
        (Inl (Exit 1),
         logPrintf (MSG_PREFIX @ '' server name allowed regexp: '' @ allowedServerName_expr) w)
      else
        let result = AList.update ''ansible_python_interpreter'' ''/usr/bin/python3'' [];
            result = AList.update ''ansible_user'' ''root'' result
        in case getScWServerByName scwApi ''proxy0'' w of
             (Inl a, w1) \<Rightarrow> (Inl a, w1)
           | (Inr serverProxy0, w1) \<Rightarrow>
               (let result = AList.update ''ansible_ssh_common_args''
                      ''-q -C -o ControlMaster=auto -o ControlPersist=5m -o ForwardAgent=yes -o StrictHostKeyChecking=no -o UserKnownHostsFile=/dev/null''
                      result
                in if serverName = ''proxy0'' then
                     (Inr (getServer_vpn_ip serverProxy0
                             (getServer_ansible_host serverProxy0
                                (AList.update ''proxy_inet'' ''True'' result))), w1)
                   else
                     (case getScWServerByName scwApi serverName w1 of
                        (Inl a, w2) \<Rightarrow> (Inl a, w2)
                      | (Inr server, w2) \<Rightarrow>
                          (Inr (getServer_vpn_ip server
                                  (getServer_ansible_host server
                                     (AList.update ''ansible_ssh_common_args''
                                        (mapIndex result ''ansible_ssh_common_args'' @
                                         '' -o ProxyCommand='' @ [CHR 0x22] @
                                         ''ssh -W %h:%p -q root@'' @ IP (PublicAddress serverProxy0) @
                                         '' -i ~/.ssh/scaleway.pem'' @ [CHR 0x22])
                                        result))), w2))))"

subsection \<open>main\<close>

text \<open>
  \<open>osArgs\<close> is \<^verbatim>\<open>os.Args\<close>, the program name first. The check \<^verbatim>\<open>len(os.Args) < 2\<close> of
  the \<^verbatim>\<open>--host\<close> case is kept as written; with exactly two arguments \<^verbatim>\<open>os.Args[2]\<close> is
  out of range and the run panics.
\<close>

definition printResult :: "string + string \<Rightarrow> world \<Rightarrow> (abort + unit) \<times> world" where
  "printResult r w =
     (case r of
        Inl err \<Rightarrow>
          (Inl (Exit 1),
           logPrintf (MSG_PREFIX @ '' failed to marshal the dynamic inventory: '' @ err) w)
      | Inr jsonResponse \<Rightarrow> (Inr (), w\<lparr>stdout := stdout w @ [jsonResponse]\<rparr>))"

definition main :: "runtime \<Rightarrow> string list \<Rightarrow> world \<Rightarrow> (abort + unit) \<times> world" where
  "main rt osArgs w =
     (case initScwApi rt w of
        (Inl a, w1) \<Rightarrow> (Inl a, w1)
      | (Inr scwApi, w1) \<Rightarrow>
          (let osArg1 = (if length osArgs > 1 then osArgs ! 1 else ''--list'')
           in if osArg1 = ''--list'' then
                (case getServers scwApi w1 of
                   (Inl a, w2) \<Rightarrow> (Inl a, w2)
                 | (Inr result, w2) \<Rightarrow> printResult (Marshal_groups rt result) w2)
              else if osArg1 = ''--host'' then
                (if length osArgs < 2 then
                   (Inl (Exit 1),
                    logPrintf (MSG_PREFIX @ '' hostname is required (--host <hostname>)'') w1)
                 else if length osArgs \<le> 2 then (Inl Panic, w1)
                 else
                   (case getServer scwApi (osArgs ! 2) w1 of
                      (Inl a, w2) \<Rightarrow> (Inl a, w2)
                    | (Inr result, w2) \<Rightarrow> printResult (Marshal_vars rt result) w2))
              else (Inl (Exit 1), logPrintf (MSG_PREFIX @ '' usage: [--host|--list]'') w1)))"

subsection \<open>A small directory\<close>

text \<open>
  Five servers, for the concrete runs below. Every name resolves to the server of that
  name; \<open>unclassified9\<close> is a server of the directory, so that a lookup of it would succeed
  if it were made.
\<close>

definition mkServer :: "string \<Rightarrow> string list \<Rightarrow> string \<Rightarrow> string \<Rightarrow> ScalewayServer" where
  "mkServer n ts pub priv = \<lparr>Name = n, Tags = ts, PublicAddress = \<lparr>IP = pub\<rparr>, PrivateIP = priv\<rparr>"

definition exampleServers :: "ScalewayServer list" where
  "exampleServers =
     [mkServer ''proxy0'' [''gateway'', ''vpn''] ''51.15.0.1'' ''10.0.0.1'',
      mkServer ''master3'' [''k8s'', ''vpn''] [] ''10.0.0.23'',
      mkServer ''unclassified9'' [''misc''] ''51.15.0.9'' ''10.0.0.9'',
      mkServer ''proxy7'' [] ''51.15.0.7'' ''10.0.0.7'',
      mkServer ''worker12'' [''k8s''] [] ''10.0.0.32'']"

definition exampleApi :: ScalewayAPI where
  "exampleApi =
     \<lparr>GetServers = Inr exampleServers,
      GetServerID = (\<lambda>n. if n \<in> set (map Name exampleServers) then Inr (''id-'' @ n)
                          else Inl ''no such server''),
      GetServer = (\<lambda>i. case find (\<lambda>s. ''id-'' @ Name s = i) exampleServers of
                          Some s \<Rightarrow> Inr s
                        | None \<Rightarrow> Inl ''no such id'')\<rparr>"

definition emptyWorld :: world where
  "emptyWorld = \<lparr>stdout = [], stderr = [], calls = []\<rparr>"

text \<open>
  The same directory, except that every name other than \<open>proxy0\<close> resolves to the server
  named \<open>unclassified9\<close>: the name of the server found need not be the name asked for.
\<close>

definition aliasApi :: ScalewayAPI where
  "aliasApi = exampleApi\<lparr>GetServerID :=
      (\<lambda>n. if n = ''proxy0'' then Inr ''id-proxy0'' else Inr ''id-unclassified9'')\<rparr>"

text \<open>
  A run-time environment for each order of map iteration. Its strings need no escaping, so
  the JSON encoding of a string is the string between double quotes.
\<close>

definition quoted :: "string \<Rightarrow> string" where
  "quoted s = [CHR 0x22] @ s @ [CHR 0x22]"

definition exampleRuntime :: "(string list \<Rightarrow> string list) \<Rightarrow> runtime" where
  "exampleRuntime order =
     \<lparr>Getenv = (\<lambda>v. ''secret''), TrimSpace = (\<lambda>s. s),
      NewScalewayAPI = (\<lambda>orga token. Inr exampleApi),
      MapKeys = order,
      EncodeString = quoted\<rparr>"

text \<open>The value of a host variable in what \<open>getServer\<close> returned, if it returned.\<close>

definition hostVar :: "(abort + string gomap) \<times> world \<Rightarrow> string \<Rightarrow> string option" where
  "hostVar out k = (case fst out of Inl a \<Rightarrow> None | Inr result \<Rightarrow> map_of result k)"

section \<open>Regular expressions: the matcher decides the language\<close>

















section \<open>Serialisation\<close>

lemma sort_key_fst_unique:
  assumes "mset xs = mset ys" and "distinct (map fst xs)"
  shows "sort_key fst xs = sort_key fst ys"
proof (rule map_sorted_distinct_set_unique [where f = fst])
  have m: "mset (sort_key fst xs) = mset (sort_key fst ys)"
    using assms(1) by simp
  have "mset (map fst (sort_key fst xs)) = mset (map fst xs)"
    by simp
  then have dx: "distinct (map fst (sort_key fst xs))"
    using assms(2) mset_eq_imp_distinct_iff by blast
  have "mset (map fst ys) = mset (map fst xs)"
    using assms(1) by (metis mset_map)
  then have "distinct (map fst ys)"
    using assms(2) mset_eq_imp_distinct_iff by blast
  moreover have "mset (map fst (sort_key fst ys)) = mset (map fst ys)"
    by simp
  ultimately show dy: "distinct (map fst (sort_key fst ys))"
    using mset_eq_imp_distinct_iff by blast
  show "distinct (map fst (sort_key fst xs))" by (rule dx)
  show s: "set (sort_key fst xs) = set (sort_key fst ys)"
    using m by (rule mset_eq_setD)
  show "inj_on fst (set (sort_key fst xs) \<union> set (sort_key fst ys))"
    using dx s by (simp add: distinct_map)
  show "sorted (map fst (sort_key fst xs))" by simp
  show "sorted (map fst (sort_key fst ys))" by simp
qed

lemma map_filter_Some_id:
  "(\<And>x. x \<in> set xs \<Longrightarrow> g x = Some x) \<Longrightarrow> List.map_filter g xs = xs"
  by (induction xs) simp_all

lemma map_filter_keys:
  assumes "distinct (map fst m)"
  shows "List.map_filter (\<lambda>k. map_option (Pair k) (map_of m k)) (map fst m) = m"
proof -
  have "\<And>x. x \<in> set m \<Longrightarrow> map_option (Pair (fst x)) (map_of m (fst x)) = Some x"
  proof -
    fix x assume "x \<in> set m"
    then have "(fst x, snd x) \<in> set m" by simp
    then have "map_of m (fst x) = Some (snd x)"
      using assms by (simp only: map_of_eq_Some_iff)
    then show "map_option (Pair (fst x)) (map_of m (fst x)) = Some x" by simp
  qed
  then have "List.map_filter ((\<lambda>k. map_option (Pair k) (map_of m k)) \<circ> fst) m = m"
    by (intro map_filter_Some_id) simp
  then show ?thesis
    by (simp add: List.map_filter_def filter_map comp_def)
qed

lemma mset_map_filter:
  "mset (List.map_filter f xs) = image_mset (the \<circ> f) (filter_mset (\<lambda>x. f x \<noteq> None) (mset xs))"
  by (simp add: List.map_filter_def)

lemma mset_mapRange:
  assumes "distinct (map fst m)" and "mset (MapKeys rt (map fst m)) = mset (map fst m)"
  shows "mset (mapRange rt m) = mset m"
proof -
  let ?f = "\<lambda>k. map_option (Pair k) (map_of m k)"
  have "mset (mapRange rt m) = mset (List.map_filter ?f (map fst m))"
    unfolding mapRange_def mset_map_filter assms(2) ..
  then show ?thesis using map_filter_keys [OF assms(1)] by simp
qed

section \<open>Grouping\<close>

lemma mapIndex_update:
  "mapIndex (AList.update k v m) k' = (if k' = k then v else mapIndex m k')"
  by (simp add: mapIndex_def update_conv')

lemma map_of_getServers_tags:
  "map_of (getServers_tags name tags result) t =
     (if t \<in> set tags then Some (mapIndex result t @ replicate (count_list tags t) name)
      else map_of result t)"
proof (induction tags arbitrary: result)
  case Nil
  show ?case by simp
next
  case (Cons tag tags)
  show ?case
    by (simp add: Cons.IH Let_def update_conv' mapIndex_update replicate_app_Cons_same)
       (simp add: mapIndex_def)
qed

lemma mapIndex_getServers_tags:
  "mapIndex (getServers_tags name tags result) t =
     mapIndex result t @ replicate (count_list tags t) name"
  by (simp add: mapIndex_def [of "getServers_tags name tags result"] map_of_getServers_tags)
     (simp add: mapIndex_def)

lemma distinct_getServers_tags:
  "distinct (map fst result) \<Longrightarrow> distinct (map fst (getServers_tags name tags result))"
  by (induction tags arbitrary: result) (simp_all add: Let_def distinct_update)

lemma keys_getServers_tags:
  "fst ` set (getServers_tags name tags result) = set tags \<union> fst ` set result"
  by (induction tags arbitrary: result) (auto simp: Let_def dom_update)

lemma mapIndex_getServers_loop:
  "mapIndex (getServers_loop servers result) t =
     mapIndex result t @
     concat (map (\<lambda>s. replicate (count_list (Tags s) t) (Name s))
               (filter (\<lambda>s. MatchString allowedServerName (Name s)) servers))"
  by (induction servers arbitrary: result) (simp_all add: mapIndex_getServers_tags)

lemma keys_getServers_loop:
  "fst ` set (getServers_loop servers result) =
     fst ` set result \<union>
     {t. \<exists>s \<in> set servers. MatchString allowedServerName (Name s) \<and> t \<in> set (Tags s)}"
  by (induction servers arbitrary: result) (auto simp: keys_getServers_tags)

lemma distinct_getServers_loop:
  "distinct (map fst result) \<Longrightarrow> distinct (map fst (getServers_loop servers result))"
  by (induction servers arbitrary: result) (simp_all add: distinct_getServers_tags)

lemma map_of_mapIndex:
  "map_of m t = (if t \<in> fst ` set m then Some (mapIndex m t) else None)"
  by (auto simp: mapIndex_def map_of_eq_None_iff split: option.splits)

lemma concat_replicate_set:
  "set (concat (map (\<lambda>s. replicate (f s) (g s)) xs)) = {g s | s. s \<in> set xs \<and> 0 < f s}"
  by (induction xs) auto

section \<open>Host variables\<close>

lemma getScWServerByName_ok:
  assumes "GetServerID scwApi n = Inr i" and "GetServer scwApi i = Inr server"
  shows "getScWServerByName scwApi n w =
           (Inr server, apiCall (CallGetServer i) (apiCall (CallGetServerID n) w))"
  using assms by (simp add: getScWServerByName_def)

lemma getScWServerByName_InrD:
  assumes "getScWServerByName scwApi n w = (Inr server, w')"
  shows "\<exists>i. GetServerID scwApi n = Inr i \<and> GetServer scwApi i = Inr server"
  using assms by (auto simp: getScWServerByName_def Let_def split: sum.splits)

lemma getScWServerByName_calls:
  "\<exists>cs. calls (snd (getScWServerByName scwApi n w)) = calls w @ CallGetServerID n # cs"
  by (auto simp: getScWServerByName_def Let_def apiCall_def logPrintf_def split: sum.splits)

lemma Atoi_single: "Atoi [c] \<noteq> None \<longleftrightarrow> isDigit c"
proof (cases "isDigit c")
  case True
  then have "c \<noteq> CHR ''-''" "c \<noteq> CHR ''+''" by (auto simp: isDigit_def)
  moreover have "int (of_char c) - 48 < 10"
    using True by (simp add: isDigit_def less_eq_char_def)
  moreover have "0 \<le> int (of_char c) - 48"
    using True by (simp add: isDigit_def less_eq_char_def)
  ultimately show ?thesis using True by (simp add: Atoi_def Let_def)
next
  case False
  then show ?thesis by (simp add: Atoi_def Let_def)
qed

lemma map_of_getServer_ansible_host:
  "map_of (getServer_ansible_host server result) k =
     (if k = ''ansible_host'' then
        Some (if IP (PublicAddress server) \<noteq> [] then IP (PublicAddress server) else PrivateIP server)
      else map_of result k)"
  by (simp add: getServer_ansible_host_def update_conv')

lemma Contains_length: "Contains s sub \<Longrightarrow> length sub \<le> length s"
  by (auto simp: Contains_def sublist_def)

lemma drop_last: "s \<noteq> [] \<Longrightarrow> drop (length s - Suc 0) s = [last s]"
  by (induction s) (auto simp: drop_Cons')

lemma map_of_getServer_vpn_ip_other:
  "k \<noteq> ''vpn_ip'' \<Longrightarrow> map_of (getServer_vpn_ip server result) k = map_of result k"
  by (simp add: getServer_vpn_ip_def Let_def update_conv' split: option.splits)

lemma map_of_getServer_vpn_ip:
  "map_of (getServer_vpn_ip server result) ''vpn_ip'' =
     (if 3 \<le> length (Name server) \<and> isDigit (last (Name server)) then
        (if Contains (Name server) ''proxy'' then Some (''192.168.66.1'' @ [last (Name server)])
         else if Contains (Name server) ''master'' then Some (''192.168.66.2'' @ [last (Name server)])
         else if Contains (Name server) ''worker'' then Some (''192.168.66.3'' @ [last (Name server)])
         else map_of result ''vpn_ip'')
      else map_of result ''vpn_ip'')"
proof (cases "3 \<le> length (Name server)")
  case True
  then have ne: "Name server \<noteq> []" by auto
  have pos: "int (length (Name server)) - 1 > 1" using True by simp
  have d: "drop (nat (int (length (Name server)) - 1)) (Name server) = [last (Name server)]"
    using drop_last [OF ne] by (simp add: nat_diff_distrib')
  show ?thesis
  proof (cases "isDigit (last (Name server))")
    case True
    then obtain n where "Atoi [last (Name server)] = Some n"
      using Atoi_single by blast
    then show ?thesis
      using pos d True \<open>3 \<le> length (Name server)\<close>
      by (simp add: getServer_vpn_ip_def Let_def update_conv')
  next
    case False
    then have "Atoi [last (Name server)] = None" using Atoi_single by blast
    then show ?thesis using pos d False by (simp add: getServer_vpn_ip_def Let_def)
  qed
next
  case False
  then have "\<not> int (length (Name server)) - 1 > 1" by simp
  then show ?thesis using False by (simp add: getServer_vpn_ip_def Let_def)
qed

lemma getServer_invalid:
  assumes "\<not> MatchString allowedServerName n"
  shows "getServer scwApi n w =
           (Inl (Exit 1),
            logPrintf (MSG_PREFIX @ '' server name allowed regexp: '' @ allowedServerName_expr) w)"
  using assms by (simp add: getServer_def)

lemma getServer_calls:
  assumes "MatchString allowedServerName n"
  shows "\<exists>cs. calls (snd (getServer scwApi n w)) = calls w @ CallGetServerID ''proxy0'' # cs"
proof -
  obtain r1 w1 where g: "getScWServerByName scwApi ''proxy0'' w = (r1, w1)"
    by (cases "getScWServerByName scwApi ''proxy0'' w")
  obtain cs where c1: "calls w1 = calls w @ CallGetServerID ''proxy0'' # cs"
    using getScWServerByName_calls [of scwApi "''proxy0''" w] g by auto
  show ?thesis
  proof (cases r1)
    case (Inl a)
    with assms g c1 show ?thesis by (simp add: getServer_def)
  next
    case (Inr p0)
    show ?thesis
    proof (cases "n = ''proxy0''")
      case True
      with assms g c1 Inr show ?thesis by (simp add: getServer_def)
    next
      case False
      obtain r2 w2 where g2: "getScWServerByName scwApi n w1 = (r2, w2)"
        by (cases "getScWServerByName scwApi n w1")
      obtain cs' where "calls w2 = calls w1 @ CallGetServerID n # cs'"
        using getScWServerByName_calls [of scwApi n w1] g2 by auto
      with c1 have "calls w2 = calls w @ CallGetServerID ''proxy0'' # (cs @ CallGetServerID n # cs')"
        by simp
      with assms g g2 Inr False show ?thesis
        by (cases r2) (simp_all add: getServer_def)
    qed
  qed
qed

lemma getServer_ok:
  assumes "MatchString allowedServerName n"
    and "GetServerID scwApi ''proxy0'' = Inr i0" and "GetServer scwApi i0 = Inr serverProxy0"
    and "GetServerID scwApi n = Inr i" and "GetServer scwApi i = Inr server"
  shows "fst (getServer scwApi n w) =
     Inr (getServer_vpn_ip server (getServer_ansible_host server
       (if n = ''proxy0'' then
          [(''ansible_python_interpreter'', ''/usr/bin/python3''), (''ansible_user'', ''root''),
           (''ansible_ssh_common_args'',
            ''-q -C -o ControlMaster=auto -o ControlPersist=5m -o ForwardAgent=yes -o StrictHostKeyChecking=no -o UserKnownHostsFile=/dev/null''),
           (''proxy_inet'', ''True'')]
        else
          [(''ansible_python_interpreter'', ''/usr/bin/python3''), (''ansible_user'', ''root''),
           (''ansible_ssh_common_args'',
            ''-q -C -o ControlMaster=auto -o ControlPersist=5m -o ForwardAgent=yes -o StrictHostKeyChecking=no -o UserKnownHostsFile=/dev/null''
            @ '' -o ProxyCommand='' @ [CHR 0x22] @ ''ssh -W %h:%p -q root@''
            @ IP (PublicAddress serverProxy0) @ '' -i ~/.ssh/scaleway.pem'' @ [CHR 0x22])])))"
proof (cases "n = ''proxy0''")
  case True
  with assms have "i = i0" "server = serverProxy0" by simp_all
  with True assms show ?thesis
    by (simp add: getServer_def getScWServerByName_ok [OF assms(2,3)] mapIndex_def)
next
  case False
  with assms show ?thesis
    by (simp add: getServer_def getScWServerByName_ok [OF assms(2,3)]
          getScWServerByName_ok [OF assms(4,5)] mapIndex_def)
qed

lemma hostVar_getServer:
  assumes "MatchString allowedServerName n"
    and "GetServerID scwApi ''proxy0'' = Inr i0" and "GetServer scwApi i0 = Inr serverProxy0"
    and "GetServerID scwApi n = Inr i" and "GetServer scwApi i = Inr server"
  shows "hostVar (getServer scwApi n w) ''ansible_python_interpreter'' = Some ''/usr/bin/python3''"
    and "hostVar (getServer scwApi n w) ''ansible_user'' = Some ''root''"
    and "hostVar (getServer scwApi n w) ''ansible_ssh_common_args'' =
           Some (''-q -C -o ControlMaster=auto -o ControlPersist=5m -o ForwardAgent=yes -o StrictHostKeyChecking=no -o UserKnownHostsFile=/dev/null''
                 @ (if n = ''proxy0'' then []
                    else '' -o ProxyCommand='' @ [CHR 0x22] @ ''ssh -W %h:%p -q root@''
                         @ IP (PublicAddress serverProxy0) @ '' -i ~/.ssh/scaleway.pem'' @ [CHR 0x22]))"
    and "hostVar (getServer scwApi n w) ''proxy_inet'' = (if n = ''proxy0'' then Some ''True'' else None)"
    and "hostVar (getServer scwApi n w) ''ansible_host'' =
           Some (if IP (PublicAddress server) \<noteq> [] then IP (PublicAddress server) else PrivateIP server)"
    and "hostVar (getServer scwApi n w) ''vpn_ip'' =
           (if 3 \<le> length (Name server) \<and> isDigit (last (Name server)) then
              (if Contains (Name server) ''proxy'' then Some (''192.168.66.1'' @ [last (Name server)])
               else if Contains (Name server) ''master'' then Some (''192.168.66.2'' @ [last (Name server)])
               else if Contains (Name server) ''worker'' then Some (''192.168.66.3'' @ [last (Name server)])
               else None)
            else None)"
  unfolding hostVar_def getServer_ok [OF assms]
  by (simp_all add: map_of_getServer_vpn_ip map_of_getServer_vpn_ip_other
        map_of_getServer_ansible_host)

section \<open>The allowed names\<close>



lemma allowed_examples:
  "MatchString allowedServerName ''proxy0''"
  "MatchString allowedServerName ''master3''"
  "MatchString allowedServerName ''proxy7''"
  "MatchString allowedServerName ''worker12''"
  "\<not> MatchString allowedServerName ''unclassified9''"
  "\<not> MatchString allowedServerName ''ab''"
  by code_simp+


section \<open>The example directory\<close>

lemma exampleApi_proxy0:
  "GetServerID exampleApi ''proxy0'' = Inr ''id-proxy0''"
  "GetServer exampleApi ''id-proxy0'' =
     Inr (mkServer ''proxy0'' [''gateway'', ''vpn''] ''51.15.0.1'' ''10.0.0.1'')"
  by (simp_all add: exampleApi_def exampleServers_def mkServer_def)

lemma exampleApi_master3:
  "GetServerID exampleApi ''master3'' = Inr ''id-master3''"
  "GetServer exampleApi ''id-master3'' = Inr (mkServer ''master3'' [''k8s'', ''vpn''] [] ''10.0.0.23'')"
  by (simp_all add: exampleApi_def exampleServers_def mkServer_def)

lemma exampleApi_proxy7:
  "GetServerID exampleApi ''proxy7'' = Inr ''id-proxy7''"
  "GetServer exampleApi ''id-proxy7'' = Inr (mkServer ''proxy7'' [] ''51.15.0.7'' ''10.0.0.7'')"
  by (simp_all add: exampleApi_def exampleServers_def mkServer_def)

lemma aliasApi_lookup:
  "GetServerID aliasApi ''proxy0'' = Inr ''id-proxy0''"
  "GetServer aliasApi ''id-proxy0'' =
     Inr (mkServer ''proxy0'' [''gateway'', ''vpn''] ''51.15.0.1'' ''10.0.0.1'')"
  "GetServerID aliasApi ''proxy7'' = Inr ''id-unclassified9''"
  "GetServer aliasApi ''id-unclassified9'' =
     Inr (mkServer ''unclassified9'' [''misc''] ''51.15.0.9'' ''10.0.0.9'')"
  by (simp_all add: aliasApi_def exampleApi_def exampleServers_def mkServer_def)

lemma Contains_simps:
  "Contains [] sub \<longleftrightarrow> sub = []"
  "Contains (c # s) sub \<longleftrightarrow> prefix sub (c # s) \<or> Contains s sub"
  by (simp_all add: Contains_def sublist_Cons_right)

lemma exampleApi_worker12:
  "GetServerID exampleApi ''worker12'' = Inr ''id-worker12''"
  "GetServer exampleApi ''id-worker12'' = Inr (mkServer ''worker12'' [''k8s''] [] ''10.0.0.32'')"
  by (simp_all add: exampleApi_def exampleServers_def mkServer_def)

lemma getServers_loop_example:
  "getServers_loop exampleServers [] =
     [(''gateway'', [''proxy0'']), (''vpn'', [''proxy0'', ''master3'']),
      (''k8s'', [''master3'', ''worker12''])]"
  by (simp add: exampleServers_def mkServer_def allowed_examples Let_def mapIndex_def)

section \<open>Grouping: names under a tag\<close>

lemma mapIndex_Nil: "mapIndex [] t = []"
  by (simp add: mapIndex_def)

lemma distinct_count_list: "distinct xs \<Longrightarrow> count_list xs x = (if x \<in> set xs then 1 else 0)"
  by (induction xs) auto

lemma count_list_pos: "0 < count_list xs x \<longleftrightarrow> x \<in> set xs"
  using count_list_0_iff [of xs x] by auto

lemma filter_tag_concat:
  assumes "\<forall>s \<in> set servers. distinct (Tags s)"
  shows "concat (map (\<lambda>s. replicate (count_list (Tags s) t) (Name s)) (filter P servers)) =
         map Name (filter (\<lambda>s. P s \<and> t \<in> set (Tags s)) servers)"
  using assms
proof (induction servers)
  case Nil
  show ?case by simp
next
  case (Cons s servers)
  then have d: "distinct (Tags s)" by simp
  have "count_list (Tags s) t = (if t \<in> set (Tags s) then 1 else 0)"
    using d by (rule distinct_count_list)
  with Cons show ?case by simp
qed

section \<open>The order of map iteration\<close>

lemma distinct_mapRange:
  assumes "distinct (map fst m)" and "mset (MapKeys rt (map fst m)) = mset (map fst m)"
  shows "distinct (map fst (mapRange rt m))"
proof -
  have "mset (map fst (mapRange rt m)) = mset (map fst m)"
    using mset_mapRange [OF assms] by (metis mset_map)
  then show ?thesis using assms(1) mset_eq_imp_distinct_iff by blast
qed

lemma sorted_mapRange_order:
  assumes "distinct (map fst m)"
    and "mset (MapKeys rt (map fst m)) = mset (map fst m)"
    and "mset (MapKeys rt' (map fst m)) = mset (map fst m)"
  shows "sort_key fst (mapRange rt' m) = sort_key fst (mapRange rt m)"
proof (rule sort_key_fst_unique)
  show "mset (mapRange rt' m) = mset (mapRange rt m)"
    using mset_mapRange [OF assms(1,2)] mset_mapRange [OF assms(1,3)] by simp
  show "distinct (map fst (mapRange rt' m))"
    using assms(1,3) by (rule distinct_mapRange)
qed

lemma Marshal_groups_order:
  assumes "distinct (map fst m)"
    and "\<forall>ks. distinct ks \<longrightarrow> mset (MapKeys rt ks) = mset ks"
    and "\<forall>ks. distinct ks \<longrightarrow> mset (order ks) = mset ks"
  shows "Marshal_groups (rt\<lparr>MapKeys := order\<rparr>) m = Marshal_groups rt m"
proof -
  have "sort_key fst (mapRange (rt\<lparr>MapKeys := order\<rparr>) m) = sort_key fst (mapRange rt m)"
    using assms by (intro sorted_mapRange_order) simp_all
  then show ?thesis
    by (simp add: Marshal_groups_def encodeMap_def encodeSlice_def)
qed

lemma initScwApi_MapKeys: "initScwApi (rt\<lparr>MapKeys := order\<rparr>) w = initScwApi rt w"
  by (simp add: initScwApi_def Let_def)

lemma initScwApi_cases:
  "(\<exists>msg. initScwApi rt w = (Inl (Exit 1), logPrintf msg w)) \<or> (\<exists>api. initScwApi rt w = (Inr api, w))"
  by (auto simp: initScwApi_def Let_def split: sum.splits)

lemma getServers_cases:
  "(\<exists>msg. getServers scwApi w = (Inl (Exit 1), logPrintf msg (apiCall CallGetServers w)))
   \<or> (\<exists>servers. GetServers scwApi = Inr servers
        \<and> getServers scwApi w = (Inr (getServers_loop servers []), apiCall CallGetServers w))"
  by (auto simp: getServers_def Let_def split: sum.splits)

lemma main_list:
  assumes "length osArgs \<le> 1 \<or> osArgs ! 1 = ''--list''"
  shows "main rt osArgs w =
     (case initScwApi rt w of
        (Inl a, w1) \<Rightarrow> (Inl a, w1)
      | (Inr scwApi, w1) \<Rightarrow>
          (case getServers scwApi w1 of
             (Inl a, w2) \<Rightarrow> (Inl a, w2)
           | (Inr result, w2) \<Rightarrow> printResult (Marshal_groups rt result) w2))"
  using assms by (auto simp: main_def Let_def split: prod.splits sum.splits)

lemma sorted_example:
  "sort_key fst (mapRange (exampleRuntime rev)
     [(''gateway'', [''proxy0'']), (''vpn'', [''proxy0'', ''master3'']),
      (''k8s'', [''master3'', ''worker12''])]) =
     [(''gateway'', [''proxy0'']), (''k8s'', [''master3'', ''worker12'']),
      (''vpn'', [''proxy0'', ''master3''])]"
  by (simp add: mapRange_def exampleRuntime_def)

section \<open>Claims\<close>




text \<open>
  C2. \<open>getServer\<close> checks the name before it asks the directory anything: a name that does not
  match makes it log the pattern and exit with code 1, the list of directory calls unchanged;
  and whenever a directory call has been made, the name had matched.
\<close>

theorem getServer_validates_first:
  "(\<not> MatchString allowedServerName n \<longrightarrow>
      getServer scwApi n w =
        (Inl (Exit 1),
         logPrintf (MSG_PREFIX @ '' server name allowed regexp: '' @ allowedServerName_expr) w)
      \<and> calls (snd (getServer scwApi n w)) = calls w)
   \<and> (calls (snd (getServer scwApi n w)) \<noteq> calls w \<longrightarrow> MatchString allowedServerName n)"
  by (cases "MatchString allowedServerName n") (simp_all add: getServer_invalid logPrintf_def)

theorem getServer_validates_first_witness:
  "\<not> MatchString allowedServerName ''unclassified9''
   \<and> getServer exampleApi ''unclassified9'' emptyWorld =
       (Inl (Exit 1),
        \<lparr>stdout = [],
         stderr = [''scw-inv: server name allowed regexp: proxy[0-9]|master[[0-9]|worker+[0-9]''],
         calls = []\<rparr>)
   \<and> calls (snd (getServer exampleApi ''master3'' emptyWorld)) \<noteq> calls emptyWorld
   \<and> MatchString allowedServerName ''master3''"
proof -
  have a: "\<not> MatchString allowedServerName ''unclassified9''"
    by (rule allowed_examples)
  have b: "getServer exampleApi ''unclassified9'' emptyWorld =
       (Inl (Exit 1),
        \<lparr>stdout = [],
         stderr = [''scw-inv: server name allowed regexp: proxy[0-9]|master[[0-9]|worker+[0-9]''],
         calls = []\<rparr>)"
    using getServer_validates_first [of "''unclassified9''" exampleApi emptyWorld] a
    by (simp add: logPrintf_def emptyWorld_def MSG_PREFIX_def allowedServerName_expr_def)
  obtain cs where "calls (snd (getServer exampleApi ''master3'' emptyWorld)) =
      calls emptyWorld @ CallGetServerID ''proxy0'' # cs"
    using getServer_calls [OF allowed_examples(2)] by blast
  then have c: "calls (snd (getServer exampleApi ''master3'' emptyWorld)) \<noteq> calls emptyWorld"
    by simp
  then have "MatchString allowedServerName ''master3''"
    using getServer_validates_first [of "''master3''" exampleApi emptyWorld] by blast
  with a b c show ?thesis by blast
qed

text \<open>
  C3. For the server that the target name resolves to, \<open>vpn_ip\<close> is set if and only if the
  server's name has at least 2 characters, ends in a decimal digit and contains \<open>proxy\<close>,
  \<open>master\<close> or \<open>worker\<close>; the value is \<open>192.168.66.\<close>, then 1, 2 or 3 for the first of the
  three classes (in this order) that the name contains, then the last character of the name.
  A server named \<open>proxy7\<close> gets \<open>192.168.66.17\<close> and one named \<open>master3\<close> gets
  \<open>192.168.66.23\<close>. (The guard of the code asks for 3 characters; a name that contains a class
  substring has at least 5, so both bounds give the same result.)
\<close>

theorem getServer_vpn_ip_spec:
  assumes "MatchString allowedServerName n"
    and "GetServerID scwApi ''proxy0'' = Inr i0" and "GetServer scwApi i0 = Inr serverProxy0"
    and "GetServerID scwApi n = Inr i" and "GetServer scwApi i = Inr server"
  shows "(hostVar (getServer scwApi n w) ''vpn_ip'' \<noteq> None \<longleftrightarrow>
            2 \<le> length (Name server) \<and> isDigit (last (Name server)) \<and>
            (Contains (Name server) ''proxy'' \<or> Contains (Name server) ''master''
             \<or> Contains (Name server) ''worker''))
       \<and> (hostVar (getServer scwApi n w) ''vpn_ip'' = None \<or>
            hostVar (getServer scwApi n w) ''vpn_ip'' =
              Some (''192.168.66.'' @
                    (if Contains (Name server) ''proxy'' then ''1''
                     else if Contains (Name server) ''master'' then ''2'' else ''3'') @
                    [last (Name server)]))
       \<and> (Name server = ''proxy7'' \<longrightarrow>
            hostVar (getServer scwApi n w) ''vpn_ip'' = Some ''192.168.66.17'')
       \<and> (Name server = ''master3'' \<longrightarrow>
            hostVar (getServer scwApi n w) ''vpn_ip'' = Some ''192.168.66.23'')"
proof -
  note v = hostVar_getServer(6) [OF assms, of w]
  have len: "3 \<le> length (Name server)"
    if "Contains (Name server) ''proxy'' \<or> Contains (Name server) ''master''
        \<or> Contains (Name server) ''worker''"
    using that Contains_length [of "Name server"] by fastforce
  have a: "hostVar (getServer scwApi n w) ''vpn_ip'' \<noteq> None \<longleftrightarrow>
            2 \<le> length (Name server) \<and> isDigit (last (Name server)) \<and>
            (Contains (Name server) ''proxy'' \<or> Contains (Name server) ''master''
             \<or> Contains (Name server) ''worker'')"
    unfolding v using len by auto
  have b: "hostVar (getServer scwApi n w) ''vpn_ip'' = None \<or>
            hostVar (getServer scwApi n w) ''vpn_ip'' =
              Some (''192.168.66.'' @
                    (if Contains (Name server) ''proxy'' then ''1''
                     else if Contains (Name server) ''master'' then ''2'' else ''3'') @
                    [last (Name server)])"
    unfolding v by simp
  have c: "Name server = ''proxy7'' \<longrightarrow>
            hostVar (getServer scwApi n w) ''vpn_ip'' = Some ''192.168.66.17''"
    unfolding v by (simp add: isDigit_def Contains_simps)
  have d: "Name server = ''master3'' \<longrightarrow>
            hostVar (getServer scwApi n w) ''vpn_ip'' = Some ''192.168.66.23''"
    unfolding v by (simp add: isDigit_def Contains_simps)
  from a b c d show ?thesis by (intro conjI)
qed

text \<open>On the example directories.\<close>

theorem getServer_vpn_ip_spec_witness:
  "hostVar (getServer exampleApi ''proxy7'' emptyWorld) ''vpn_ip'' = Some ''192.168.66.17''
   \<and> hostVar (getServer exampleApi ''master3'' emptyWorld) ''vpn_ip'' = Some ''192.168.66.23''
   \<and> hostVar (getServer exampleApi ''worker12'' emptyWorld) ''vpn_ip'' = Some ''192.168.66.32''
   \<and> hostVar (getServer aliasApi ''proxy7'' emptyWorld) ''vpn_ip'' = None"
proof -
  note p = getServer_vpn_ip_spec [OF allowed_examples(3) exampleApi_proxy0 exampleApi_proxy7,
      of emptyWorld]
  note m = getServer_vpn_ip_spec [OF allowed_examples(2) exampleApi_proxy0 exampleApi_master3,
      of emptyWorld]
  note k = getServer_vpn_ip_spec [OF allowed_examples(4) exampleApi_proxy0 exampleApi_worker12,
      of emptyWorld]
  note u = getServer_vpn_ip_spec [OF allowed_examples(3) aliasApi_lookup, of emptyWorld]
  have "hostVar (getServer exampleApi ''proxy7'' emptyWorld) ''vpn_ip'' = Some ''192.168.66.17''"
    using p by (simp add: mkServer_def)
  moreover have "hostVar (getServer exampleApi ''master3'' emptyWorld) ''vpn_ip'' = Some ''192.168.66.23''"
    using m by (simp add: mkServer_def)
  moreover have "hostVar (getServer exampleApi ''worker12'' emptyWorld) ''vpn_ip'' = Some ''192.168.66.32''"
    using k by (auto simp: mkServer_def Contains_simps isDigit_def)
  moreover have "hostVar (getServer aliasApi ''proxy7'' emptyWorld) ''vpn_ip'' = None"
    using u by (simp add: mkServer_def Contains_simps)
  ultimately show ?thesis by (intro conjI)
qed

text \<open>
  C4, as amended. With a first argument that is neither \<open>--list\<close> nor \<open>--host\<close> the program
  exits with code 1 and prints nothing on standard output; when the directory handle could be
  set up, what it logs on standard error is the one usage line. With no argument the program
  runs as with \<open>--list\<close>.
\<close>

theorem main_usage:
  "(1 < length osArgs \<and> osArgs ! 1 \<noteq> ''--list'' \<and> osArgs ! 1 \<noteq> ''--host'' \<longrightarrow>
      fst (main rt osArgs w) = Inl (Exit 1)
      \<and> stdout (snd (main rt osArgs w)) = stdout w
      \<and> (fst (initScwApi rt w) = Inr scwApi \<longrightarrow>
           stderr (snd (main rt osArgs w)) = stderr w @ [''scw-inv: usage: [--host|--list]'']))
   \<and> (length osArgs \<le> 1 \<longrightarrow> main rt osArgs w = main rt [prog, ''--list''] w)"
proof (intro conjI impI)
  assume a: "1 < length osArgs \<and> osArgs ! 1 \<noteq> ''--list'' \<and> osArgs ! 1 \<noteq> ''--host''"
  consider (fail) msg where "initScwApi rt w = (Inl (Exit 1), logPrintf msg w)"
    | (ok) api where "initScwApi rt w = (Inr api, w)"
    using initScwApi_cases [of rt w] by blast
  then have "fst (main rt osArgs w) = Inl (Exit 1) \<and> stdout (snd (main rt osArgs w)) = stdout w"
    using a by cases (simp_all add: main_def logPrintf_def)
  then show "fst (main rt osArgs w) = Inl (Exit 1)"
    and "stdout (snd (main rt osArgs w)) = stdout w" by simp_all
  show "stderr (snd (main rt osArgs w)) = stderr w @ [''scw-inv: usage: [--host|--list]'']"
    if "fst (initScwApi rt w) = Inr scwApi"
    using that a initScwApi_cases [of rt w]
    by (auto simp: main_def logPrintf_def MSG_PREFIX_def)
next
  assume "length osArgs \<le> 1"
  then show "main rt osArgs w = main rt [prog, ''--list''] w"
    by (simp add: main_list)
qed

text \<open>On the example run time: \<open>--help\<close> gives the usage line, no argument gives the list.\<close>

theorem main_usage_witness:
  "main (exampleRuntime rev) [''inv'', ''--help''] emptyWorld =
     (Inl (Exit 1), \<lparr>stdout = [], stderr = [''scw-inv: usage: [--host|--list]''], calls = []\<rparr>)
   \<and> main (exampleRuntime rev) [''inv''] emptyWorld = main (exampleRuntime rev) [''inv'', ''--list''] emptyWorld"
proof -
  have i: "initScwApi (exampleRuntime rev) emptyWorld = (Inr exampleApi, emptyWorld)"
    by (simp add: initScwApi_def exampleRuntime_def)
  note u = main_usage [of "[''inv'', ''--help'']" "exampleRuntime rev" emptyWorld exampleApi "''inv''"]
  note v = main_usage [of "[''inv'']" "exampleRuntime rev" emptyWorld exampleApi "''inv''"]
  have c: "calls (snd (main (exampleRuntime rev) [''inv'', ''--help''] emptyWorld)) = []"
    by (simp add: main_def i logPrintf_def) (simp add: emptyWorld_def)
  have "fst (main (exampleRuntime rev) [''inv'', ''--help''] emptyWorld) = Inl (Exit 1)
      \<and> stdout (snd (main (exampleRuntime rev) [''inv'', ''--help''] emptyWorld)) = []
      \<and> stderr (snd (main (exampleRuntime rev) [''inv'', ''--help''] emptyWorld)) = [''scw-inv: usage: [--host|--list]'']"
    using u i by (simp add: emptyWorld_def)
  with c have "main (exampleRuntime rev) [''inv'', ''--help''] emptyWorld =
     (Inl (Exit 1), \<lparr>stdout = [], stderr = [''scw-inv: usage: [--host|--list]''], calls = []\<rparr>)"
    by (cases "main (exampleRuntime rev) [''inv'', ''--help''] emptyWorld") auto
  moreover have "main (exampleRuntime rev) [''inv''] emptyWorld = main (exampleRuntime rev) [''inv'', ''--list''] emptyWorld"
    using v by simp
  ultimately show ?thesis by (intro conjI)
qed

text \<open>
  The claim as the specification has it fails for an invocation with no argument: the run
  returns normally, having printed the groups on standard output and nothing on standard
  error.
\<close>

theorem main_no_arguments_counterexample: "main (exampleRuntime rev) [''inv''] emptyWorld =
   (Inr (), \<lparr>stdout = [''{'' @ quoted ''gateway'' @ '':['' @ quoted ''proxy0'' @ ''],''
                         @ quoted ''k8s'' @ '':['' @ quoted ''master3'' @ '','' @ quoted ''worker12'' @ ''],''
                         @ quoted ''vpn'' @ '':['' @ quoted ''proxy0'' @ '','' @ quoted ''master3'' @ '']}''],
              stderr = [], calls = [CallGetServers]\<rparr>)"
proof -
  have i: "initScwApi (exampleRuntime rev) emptyWorld = (Inr exampleApi, emptyWorld)"
    by (simp add: initScwApi_def exampleRuntime_def)
  have g: "getServers exampleApi emptyWorld =
             (Inr (getServers_loop exampleServers []), apiCall CallGetServers emptyWorld)"
    by (simp add: getServers_def exampleApi_def)
  show ?thesis
    unfolding main_list [of "[''inv'']", simplified] i g prod.case sum.case
      getServers_loop_example Marshal_groups_def encodeMap_def sorted_example
    by (simp add: printResult_def encodeSlice_def joinWith_def exampleRuntime_def apiCall_def emptyWorld_def)
qed

text \<open>
  C5. For the server that the target name resolves to, \<open>ansible_host\<close> is the public address
  when that is not empty, and the private address otherwise.
\<close>

theorem getServer_ansible_host_spec:
  assumes "MatchString allowedServerName n"
    and "GetServerID scwApi ''proxy0'' = Inr i0" and "GetServer scwApi i0 = Inr serverProxy0"
    and "GetServerID scwApi n = Inr i" and "GetServer scwApi i = Inr server"
  shows "(IP (PublicAddress server) \<noteq> [] \<longrightarrow>
            hostVar (getServer scwApi n w) ''ansible_host'' = Some (IP (PublicAddress server)))
       \<and> (IP (PublicAddress server) = [] \<longrightarrow>
            hostVar (getServer scwApi n w) ''ansible_host'' = Some (PrivateIP server))"
  by (simp add: hostVar_getServer(5) [OF assms])

text \<open>\<open>proxy7\<close> has a public address, \<open>master3\<close> has none.\<close>

theorem getServer_ansible_host_spec_witness:
  "hostVar (getServer exampleApi ''proxy7'' emptyWorld) ''ansible_host'' = Some ''51.15.0.7''
   \<and> hostVar (getServer exampleApi ''master3'' emptyWorld) ''ansible_host'' = Some ''10.0.0.23''"
  using getServer_ansible_host_spec [OF allowed_examples(3) exampleApi_proxy0 exampleApi_proxy7,
      of emptyWorld]
    getServer_ansible_host_spec [OF allowed_examples(2) exampleApi_proxy0 exampleApi_master3,
      of emptyWorld]
  by (simp add: mkServer_def)

text \<open>
  C6. For \<open>proxy0\<close>, \<open>proxy_inet\<close> is \<open>True\<close> and \<open>ansible_ssh_common_args\<close> is the baseline, which
  contains no \<open>ProxyCommand\<close>. For every other valid name, \<open>proxy_inet\<close> is not set and
  \<open>ansible_ssh_common_args\<close> is the baseline followed by one \<open>ProxyCommand\<close> clause that names
  the public address of the server \<open>proxy0\<close>.
\<close>

theorem getServer_gateway_spec:
  assumes "MatchString allowedServerName n"
    and "GetServerID scwApi ''proxy0'' = Inr i0" and "GetServer scwApi i0 = Inr serverProxy0"
    and "GetServerID scwApi n = Inr i" and "GetServer scwApi i = Inr server"
  shows "(n = ''proxy0'' \<longrightarrow>
            hostVar (getServer scwApi n w) ''proxy_inet'' = Some ''True''
          \<and> hostVar (getServer scwApi n w) ''ansible_ssh_common_args'' =
              Some ''-q -C -o ControlMaster=auto -o ControlPersist=5m -o ForwardAgent=yes -o StrictHostKeyChecking=no -o UserKnownHostsFile=/dev/null''
          \<and> \<not> Contains ''-q -C -o ControlMaster=auto -o ControlPersist=5m -o ForwardAgent=yes -o StrictHostKeyChecking=no -o UserKnownHostsFile=/dev/null'' ''ProxyCommand'')
       \<and> (n \<noteq> ''proxy0'' \<longrightarrow>
            hostVar (getServer scwApi n w) ''proxy_inet'' = None
          \<and> hostVar (getServer scwApi n w) ''ansible_ssh_common_args'' =
              Some (''-q -C -o ControlMaster=auto -o ControlPersist=5m -o ForwardAgent=yes -o StrictHostKeyChecking=no -o UserKnownHostsFile=/dev/null''
                    @ '' -o ProxyCommand='' @ [CHR 0x22] @ ''ssh -W %h:%p -q root@''
                    @ IP (PublicAddress serverProxy0) @ '' -i ~/.ssh/scaleway.pem'' @ [CHR 0x22]))"
proof -
  have "\<not> Contains ''-q -C -o ControlMaster=auto -o ControlPersist=5m -o ForwardAgent=yes -o StrictHostKeyChecking=no -o UserKnownHostsFile=/dev/null'' ''ProxyCommand''"
    by (simp add: Contains_simps)
  then show ?thesis
    using hostVar_getServer(3) [OF assms, of w] hostVar_getServer(4) [OF assms, of w]
    by (cases "n = ''proxy0''") simp_all
qed

text \<open>On the example directory, for \<open>proxy0\<close> and for \<open>master3\<close>.\<close>

theorem getServer_gateway_spec_witness:
  "hostVar (getServer exampleApi ''proxy0'' emptyWorld) ''proxy_inet'' = Some ''True''
   \<and> hostVar (getServer exampleApi ''proxy0'' emptyWorld) ''ansible_ssh_common_args'' =
       Some ''-q -C -o ControlMaster=auto -o ControlPersist=5m -o ForwardAgent=yes -o StrictHostKeyChecking=no -o UserKnownHostsFile=/dev/null''
   \<and> hostVar (getServer exampleApi ''master3'' emptyWorld) ''proxy_inet'' = None
   \<and> hostVar (getServer exampleApi ''master3'' emptyWorld) ''ansible_ssh_common_args'' =
       Some (''-q -C -o ControlMaster=auto -o ControlPersist=5m -o ForwardAgent=yes -o StrictHostKeyChecking=no -o UserKnownHostsFile=/dev/null''
             @ '' -o ProxyCommand='' @ [CHR 0x22] @ ''ssh -W %h:%p -q root@51.15.0.1 -i ~/.ssh/scaleway.pem'' @ [CHR 0x22])"
  using getServer_gateway_spec [OF allowed_examples(1) exampleApi_proxy0 exampleApi_proxy0,
      of emptyWorld]
    getServer_gateway_spec [OF allowed_examples(2) exampleApi_proxy0 exampleApi_master3,
      of emptyWorld]
  by (simp add: mkServer_def)

text \<open>
  C7, as amended. For every valid target name, \<open>ansible_ssh_common_args\<close> is the baseline
  \<^verbatim>\<open>-q -C -o ControlMaster=auto -o ControlPersist=5m -o ForwardAgent=yes\<close>
  \<^verbatim>\<open>-o StrictHostKeyChecking=no -o UserKnownHostsFile=/dev/null\<close>, followed by nothing for
  \<open>proxy0\<close> and by the \<open>ProxyCommand\<close> clause for any other name.
\<close>

theorem getServer_baseline_args:
  assumes "MatchString allowedServerName n"
    and "GetServerID scwApi ''proxy0'' = Inr i0" and "GetServer scwApi i0 = Inr serverProxy0"
    and "GetServerID scwApi n = Inr i" and "GetServer scwApi i = Inr server"
  shows "hostVar (getServer scwApi n w) ''ansible_ssh_common_args'' =
           Some (''-q -C -o ControlMaster=auto -o ControlPersist=5m -o ForwardAgent=yes -o StrictHostKeyChecking=no -o UserKnownHostsFile=/dev/null''
                 @ (if n = ''proxy0'' then []
                    else '' -o ProxyCommand='' @ [CHR 0x22] @ ''ssh -W %h:%p -q root@''
                         @ IP (PublicAddress serverProxy0) @ '' -i ~/.ssh/scaleway.pem'' @ [CHR 0x22]))"
  by (rule hostVar_getServer(3) [OF assms])

text \<open>On the example directory, for \<open>proxy0\<close> and for \<open>proxy7\<close>.\<close>

theorem getServer_baseline_args_witness:
  "hostVar (getServer exampleApi ''proxy0'' emptyWorld) ''ansible_ssh_common_args'' =
     Some ''-q -C -o ControlMaster=auto -o ControlPersist=5m -o ForwardAgent=yes -o StrictHostKeyChecking=no -o UserKnownHostsFile=/dev/null''
   \<and> hostVar (getServer exampleApi ''proxy7'' emptyWorld) ''ansible_ssh_common_args'' =
     Some (''-q -C -o ControlMaster=auto -o ControlPersist=5m -o ForwardAgent=yes -o StrictHostKeyChecking=no -o UserKnownHostsFile=/dev/null''
           @ '' -o ProxyCommand='' @ [CHR 0x22] @ ''ssh -W %h:%p -q root@51.15.0.1 -i ~/.ssh/scaleway.pem'' @ [CHR 0x22])"
  using getServer_baseline_args [OF allowed_examples(1) exampleApi_proxy0 exampleApi_proxy0,
      of emptyWorld]
    getServer_baseline_args [OF allowed_examples(3) exampleApi_proxy0 exampleApi_proxy7,
      of emptyWorld]
  by (simp add: mkServer_def)

text \<open>
  The claim as the specification has it fails: for \<open>proxy0\<close>, where nothing is appended, the
  value is not the string of the specification, which lacks the leading \<^verbatim>\<open>-q -C\<close>.
\<close>

theorem getServer_baseline_args_counterexample:
  "hostVar (getServer exampleApi ''proxy0'' emptyWorld) ''ansible_ssh_common_args'' =
     Some ''-q -C -o ControlMaster=auto -o ControlPersist=5m -o ForwardAgent=yes -o StrictHostKeyChecking=no -o UserKnownHostsFile=/dev/null''
   \<and> hostVar (getServer exampleApi ''proxy0'' emptyWorld) ''ansible_ssh_common_args'' \<noteq>
     Some ''-o ControlMaster=auto -o ControlPersist=5m -o ForwardAgent=yes -o StrictHostKeyChecking=no -o UserKnownHostsFile=/dev/null''"
  by (simp add: hostVar_getServer(3) [OF allowed_examples(1) exampleApi_proxy0 exampleApi_proxy0])

text \<open>
  C8. When the directory answers with a list of servers, \<open>getServers\<close> returns the map built
  by the loop, and for every tag \<open>t\<close>: the list under \<open>t\<close> holds, in the order of the directory,
  the name of every server whose name is allowed, once for each occurrence of \<open>t\<close> among its
  tags; so a name is in the list under \<open>t\<close> exactly when an allowed server of that name carries
  \<open>t\<close>; \<open>t\<close> is a key exactly when some allowed server carries it (a server without tags adds
  no key and no entry, a server whose name is not allowed adds nothing); and when no server
  repeats a tag, the list under \<open>t\<close> is the names of the allowed servers that carry \<open>t\<close>, in the
  order of the directory.
\<close>

theorem getServers_groups:
  assumes "GetServers scwApi = Inr servers"
  shows "fst (getServers scwApi w) = Inr (getServers_loop servers [])
       \<and> mapIndex (getServers_loop servers []) t =
           concat (map (\<lambda>s. replicate (count_list (Tags s) t) (Name s))
                     (filter (\<lambda>s. MatchString allowedServerName (Name s)) servers))
       \<and> (name \<in> set (mapIndex (getServers_loop servers []) t) \<longleftrightarrow>
            (\<exists>s \<in> set servers. MatchString allowedServerName (Name s) \<and> Name s = name
                                \<and> t \<in> set (Tags s)))
       \<and> (map_of (getServers_loop servers []) t =
            (if \<exists>s \<in> set servers. MatchString allowedServerName (Name s) \<and> t \<in> set (Tags s)
             then Some (mapIndex (getServers_loop servers []) t) else None))
       \<and> ((\<forall>s \<in> set servers. distinct (Tags s)) \<longrightarrow>
            mapIndex (getServers_loop servers []) t =
              map Name (filter (\<lambda>s. MatchString allowedServerName (Name s) \<and> t \<in> set (Tags s))
                          servers))"
proof (intro conjI impI)
  show "fst (getServers scwApi w) = Inr (getServers_loop servers [])"
    using assms by (simp add: getServers_def)
  show m: "mapIndex (getServers_loop servers []) t =
           concat (map (\<lambda>s. replicate (count_list (Tags s) t) (Name s))
                     (filter (\<lambda>s. MatchString allowedServerName (Name s)) servers))"
    by (simp add: mapIndex_getServers_loop mapIndex_Nil)
  show "name \<in> set (mapIndex (getServers_loop servers []) t) \<longleftrightarrow>
            (\<exists>s \<in> set servers. MatchString allowedServerName (Name s) \<and> Name s = name
                                \<and> t \<in> set (Tags s))"
    unfolding m concat_replicate_set by (auto simp: count_list_pos)
  show "map_of (getServers_loop servers []) t =
            (if \<exists>s \<in> set servers. MatchString allowedServerName (Name s) \<and> t \<in> set (Tags s)
             then Some (mapIndex (getServers_loop servers []) t) else None)"
    by (simp add: map_of_mapIndex [of "getServers_loop servers []"] keys_getServers_loop)
  show "mapIndex (getServers_loop servers []) t =
              map Name (filter (\<lambda>s. MatchString allowedServerName (Name s) \<and> t \<in> set (Tags s))
                          servers)"
    if "\<forall>s \<in> set servers. distinct (Tags s)"
    unfolding m using that by (rule filter_tag_concat)
qed

text \<open>
  On the example directory: \<open>vpn\<close> lists \<open>proxy0\<close> and \<open>master3\<close> in that order, and \<open>misc\<close>,
  carried only by \<open>unclassified9\<close>, is no key.
\<close>

theorem getServers_groups_witness:
  "fst (getServers exampleApi emptyWorld) = Inr (getServers_loop exampleServers [])
   \<and> map_of (getServers_loop exampleServers []) ''vpn'' = Some [''proxy0'', ''master3'']
   \<and> map_of (getServers_loop exampleServers []) ''misc'' = None"
proof -
  have g: "GetServers exampleApi = Inr exampleServers" by (simp add: exampleApi_def)
  have d: "\<forall>s \<in> set exampleServers. distinct (Tags s)"
    by (simp add: exampleServers_def mkServer_def)
  have e: "\<exists>s \<in> set exampleServers. MatchString allowedServerName (Name s) \<and> ''vpn'' \<in> set (Tags s)"
    by (simp add: exampleServers_def mkServer_def allowed_examples)
  have r: "map Name (filter (\<lambda>s. MatchString allowedServerName (Name s) \<and> ''vpn'' \<in> set (Tags s))
             exampleServers) = [''proxy0'', ''master3'']"
    by (simp add: exampleServers_def mkServer_def allowed_examples)
  have n: "\<not> (\<exists>s \<in> set exampleServers. MatchString allowedServerName (Name s) \<and> ''misc'' \<in> set (Tags s))"
    by (simp add: exampleServers_def mkServer_def allowed_examples)
  note v = getServers_groups [OF g, of emptyWorld "''vpn''"]
  note u = getServers_groups [OF g, of emptyWorld "''misc''"]
  have "fst (getServers exampleApi emptyWorld) = Inr (getServers_loop exampleServers [])"
    by (rule v [THEN conjunct1])
  moreover have "map_of (getServers_loop exampleServers []) ''vpn'' = Some [''proxy0'', ''master3'']"
    using v [THEN conjunct2, THEN conjunct2, THEN conjunct2, THEN conjunct1]
      v [THEN conjunct2, THEN conjunct2, THEN conjunct2, THEN conjunct2] d e r
    by (simp only: if_True)
  moreover have "map_of (getServers_loop exampleServers []) ''misc'' = None"
    using u [THEN conjunct2, THEN conjunct2, THEN conjunct2, THEN conjunct1] n
    by (simp only: if_False)
  ultimately show ?thesis by (intro conjI)
qed

text \<open>
  C9. The output of \<open>--list\<close> does not depend on the order in which the run time iterates
  over a map: for any two orders that visit every key once, the JSON text of the groups is
  the same, and so is the whole run of \<open>main\<close> (outcome, standard output, standard error and
  directory calls).
\<close>

theorem list_deterministic:
  assumes "\<forall>ks. distinct ks \<longrightarrow> mset (MapKeys rt ks) = mset ks"
    and "\<forall>ks. distinct ks \<longrightarrow> mset (order ks) = mset ks"
    and "length osArgs \<le> 1 \<or> osArgs ! 1 = ''--list''"
  shows "Marshal_groups (rt\<lparr>MapKeys := order\<rparr>) (getServers_loop servers []) =
           Marshal_groups rt (getServers_loop servers [])
       \<and> main (rt\<lparr>MapKeys := order\<rparr>) osArgs w = main rt osArgs w"
proof
  have d: "distinct (map fst (getServers_loop servers []))" for servers
    by (rule distinct_getServers_loop) simp
  show "Marshal_groups (rt\<lparr>MapKeys := order\<rparr>) (getServers_loop servers []) =
           Marshal_groups rt (getServers_loop servers [])"
    using d assms(1,2) by (rule Marshal_groups_order)
  have m: "Marshal_groups (rt\<lparr>MapKeys := order\<rparr>) (getServers_loop ss []) =
           Marshal_groups rt (getServers_loop ss [])" for ss
    using d assms(1,2) by (rule Marshal_groups_order)
  show "main (rt\<lparr>MapKeys := order\<rparr>) osArgs w = main rt osArgs w"
  proof -
    consider (fail) msg where "initScwApi rt w = (Inl (Exit 1), logPrintf msg w)"
      | (ok) api where "initScwApi rt w = (Inr api, w)"
      using initScwApi_cases [of rt w] by blast
    then show ?thesis
    proof cases
      case fail
      then show ?thesis
        by (simp add: main_list [OF assms(3)] initScwApi_MapKeys)
    next
      case ok
      consider (gfail) msg where
          "getServers api w = (Inl (Exit 1), logPrintf msg (apiCall CallGetServers w))"
        | (gok) ss where "getServers api w = (Inr (getServers_loop ss []), apiCall CallGetServers w)"
        using getServers_cases [of api w] by blast
      then show ?thesis
      proof cases
        case gfail
        with ok show ?thesis
          by (simp add: main_list [OF assms(3)] initScwApi_MapKeys)
      next
        case gok
        with ok show ?thesis
          by (simp add: main_list [OF assms(3)] initScwApi_MapKeys m)
      qed
    qed
  qed
qed

text \<open>On the example run time, with the keys visited in insertion order and in reverse.\<close>

theorem list_deterministic_witness:
  "Marshal_groups (exampleRuntime rev) (getServers_loop exampleServers []) =
     Marshal_groups (exampleRuntime (\<lambda>ks. ks)) (getServers_loop exampleServers [])
   \<and> main (exampleRuntime rev) [''inv'', ''--list''] emptyWorld =
       main (exampleRuntime (\<lambda>ks. ks)) [''inv'', ''--list''] emptyWorld"
proof -
  have r: "(exampleRuntime (\<lambda>ks. ks))\<lparr>MapKeys := rev\<rparr> = exampleRuntime rev"
    by (simp add: exampleRuntime_def)
  have a: "\<forall>ks. distinct ks \<longrightarrow> mset (MapKeys (exampleRuntime (\<lambda>ks. ks)) ks) = mset ks"
    by (simp add: exampleRuntime_def)
  have b: "\<forall>ks::string list. distinct ks \<longrightarrow> mset (rev ks) = mset ks"
    by simp
  have c: "length [''inv'', ''--list''] \<le> 1 \<or> [''inv'', ''--list''] ! 1 = ''--list''"
    by simp
  show ?thesis
    using list_deterministic [OF a b c, of exampleServers emptyWorld] unfolding r .
qed



end
